theory Spec2Isabelle
  imports Main "HOL-Library.Word"
begin

section \<open>The relay server of udp-webrtc-player (src/server/server.js)\<close>

text \<open>
  The server is a single-threaded event loop: every handler runs to completion, so each
  handler is a function from the server state (and the event's arguments) to the new state
  and the list of messages it emits. Every read of the wall clock (\<^verbatim>\<open>Date.now()\<close>) is an
  argument of the handler that makes it.
\<close>

subsection \<open>Data\<close>

type_synonym sockid = string
type_synonym streamid = string
type_synonym bytes = "8 word list"

text \<open>A buffered datagram: \<^verbatim>\<open>{ id, data, timestamp, size }\<close>.\<close>

record packet =
  pkt_id :: string
  pkt_data :: bytes
  pkt_timestamp :: int
  pkt_size :: nat

text \<open>An entry of \<^verbatim>\<open>socketRateLimits\<close> and of \<^verbatim>\<open>clientRequests\<close>: \<^verbatim>\<open>{ timestamp, count }\<close>.\<close>

record rate_entry =
  rl_timestamp :: int
  rl_count :: int

datatype role = Broadcaster | Viewer

text \<open>An entry of \<^verbatim>\<open>socketRoles\<close>: \<^verbatim>\<open>{ role, streamId }\<close>.\<close>

record role_entry =
  re_role :: role
  re_streamId :: streamid

text \<open>
  The module-level variables of the server. A JavaScript \<^verbatim>\<open>Map\<close> is a partial function; a
  \<^verbatim>\<open>Set\<close> of viewers is the list of its members in insertion order, which is the order a
  \<^verbatim>\<open>for ... of\<close> loop visits them. \<open>sockets\<close> is the key set of \<^verbatim>\<open>io.sockets.sockets\<close>, the
  live connections; the handlers only read it.
\<close>

record server =
  videoBuffer :: "packet list"
  bytesReceivedLastSecond :: nat
  lastDataRateUpdate :: int
  currentDataRate :: nat
  broadcasters :: "streamid \<rightharpoonup> sockid"
  viewers :: "streamid \<rightharpoonup> sockid list"
  socketRoles :: "sockid \<rightharpoonup> role_entry"
  socketRateLimits :: "sockid \<rightharpoonup> rate_entry"
  clientRequests :: "string \<rightharpoonup> rate_entry"
  sockets :: "sockid set"

text \<open>The state at process start; \<open>t0\<close> is the clock read that initialises \<^verbatim>\<open>lastDataRateUpdate\<close>.\<close>

definition initial_server :: "int \<Rightarrow> sockid set \<Rightarrow> server" where
  "initial_server t0 live =
     \<lparr>videoBuffer = [], bytesReceivedLastSecond = 0, lastDataRateUpdate = t0,
      currentDataRate = 0, broadcasters = Map.empty, viewers = Map.empty,
      socketRoles = Map.empty, socketRateLimits = Map.empty, clientRequests = Map.empty,
      sockets = live\<rparr>"

text \<open>Opaque JSON values and objects, for the signaling payloads.\<close>

datatype jval = JStr string | JNum int | JBool bool | JNull

type_synonym payload = "string \<rightharpoonup> jval"

text \<open>One element of the \<^verbatim>\<open>chunks\<close> array of a \<^verbatim>\<open>video-data\<close> reply.\<close>

record chunk =
  chunk_id :: string
  chunk_data :: string
  chunk_timestamp :: int
  chunk_size :: nat

record video_data =
  vd_chunks :: "chunk list"
  vd_nextIndex :: int
  vd_hasMore :: bool
  vd_timestamp :: int
  vd_dataRate :: "nat option"

text \<open>The messages the server emits, one constructor per event name.\<close>

datatype event =
    UdpData int nat string nat
  | VideoData video_data
  | WebrtcSignal payload
  | StreamAvailable streamid int
  | StreamEnded streamid int "string option"
  | StreamUnavailable streamid int
  | BroadcasterViewerConnected sockid int
  | BroadcasterViewerDisconnected sockid int "string option"
  | ViewerSignal payload
  | BroadcasterSignal payload

text \<open>
  Where a message goes: \<^verbatim>\<open>someSocket.emit\<close> (one connection), \<^verbatim>\<open>io.emit\<close> (every connection),
  \<^verbatim>\<open>socket.broadcast.emit\<close> (every connection but the sender).
\<close>

datatype dest = To sockid | AllClients | AllExcept sockid

type_synonym emission = "dest \<times> event"

subsection \<open>Packet buffer: the \<^verbatim>\<open>udpServer.on('message')\<close> handler\<close>

text \<open>\<^verbatim>\<open>videoBuffer.reduce((total, packet) => total + packet.data.length, 0)\<close>\<close>

definition buffered_bytes :: "packet list \<Rightarrow> int" where
  "buffered_bytes buf = foldl (\<lambda>total p. total + int (length (pkt_data p))) 0 buf"

text \<open>
  \<^verbatim>\<open>while (videoBuffer.length > 0 && reduce(...) > MAX_BUFFER_SIZE) videoBuffer.shift();\<close>
\<close>

fun evict :: "int \<Rightarrow> packet list \<Rightarrow> packet list" where
  "evict mx [] = []"
| "evict mx (p # ps) = (if buffered_bytes (p # ps) > mx then evict mx ps else p # ps)"

text \<open>
  The handler. \<open>mx\<close> is \<^verbatim>\<open>MAX_BUFFER_SIZE\<close>; \<open>digest\<close> is the hex MD5 digest of the payload,
  as the crypto library returns it; \<open>rinfo\<close> is the sender's \<^verbatim>\<open>address:port\<close>; \<open>t1\<close>, \<open>now\<close>
  and \<open>t3\<close> are the handler's three clock reads.
\<close>

definition on_udp_message ::
  "int \<Rightarrow> bytes \<Rightarrow> string \<Rightarrow> string \<Rightarrow> int \<Rightarrow> int \<Rightarrow> int \<Rightarrow> server \<Rightarrow> server \<times> emission list" where
  "on_udp_message mx msg digest rinfo t1 now t3 s =
     (let packetId = take 8 digest;
          pushed = videoBuffer s @
            [\<lparr>pkt_id = packetId, pkt_data = msg, pkt_timestamp = t1, pkt_size = length msg\<rparr>];
          received = bytesReceivedLastSecond s + length msg;
          s1 = s\<lparr>videoBuffer := evict mx pushed, bytesReceivedLastSecond := received\<rparr>;
          s2 = (if now - lastDataRateUpdate s1 \<ge> 1000
                then s1\<lparr>currentDataRate := received, bytesReceivedLastSecond := 0,
                        lastDataRateUpdate := now\<rparr>
                else s1)
      in (s2, [(AllClients, UdpData t3 (length msg) rinfo (currentDataRate s2))]))"

text \<open>A datagram with its digest and the clock reads of its handler; a run over a list.\<close>

record datagram =
  dg_msg :: bytes
  dg_digest :: string
  dg_rinfo :: string
  dg_t1 :: int
  dg_now :: int
  dg_t3 :: int

definition udp_step :: "int \<Rightarrow> server \<Rightarrow> datagram \<Rightarrow> server" where
  "udp_step mx s d =
     fst (on_udp_message mx (dg_msg d) (dg_digest d) (dg_rinfo d) (dg_t1 d) (dg_now d) (dg_t3 d) s)"

definition udp_messages :: "int \<Rightarrow> datagram list \<Rightarrow> server \<Rightarrow> server" where
  "udp_messages mx ds s = foldl (udp_step mx) s ds"

text \<open>The sum of the \<^verbatim>\<open>size\<close> fields of the held packets.\<close>

definition total_size :: "packet list \<Rightarrow> int" where
  "total_size buf = (\<Sum>p\<leftarrow>buf. int (pkt_size p))"

text \<open>Every packet the handler builds records its payload length as its size.\<close>

definition sizes_ok :: "packet list \<Rightarrow> bool" where
  "sizes_ok buf = list_all (\<lambda>p. pkt_size p = length (pkt_data p)) buf"

subsection \<open>Admission control: the fixed-window gates\<close>

text \<open>
  \<^verbatim>\<open>rateLimitSocketEvent(socket, limit)\<close>: the result is \<^verbatim>\<open>true\<close> when the event is to be
  dropped. The window length 1000 ms is fixed in the source.
\<close>

definition rateLimitSocketEvent ::
  "sockid \<Rightarrow> int \<Rightarrow> int \<Rightarrow> (sockid \<rightharpoonup> rate_entry) \<Rightarrow> bool \<times> (sockid \<rightharpoonup> rate_entry)" where
  "rateLimitSocketEvent sid limit now rl =
     (case rl sid of
        None \<Rightarrow> (False, rl(sid \<mapsto> \<lparr>rl_timestamp = now, rl_count = 1\<rparr>))
      | Some rateLimit \<Rightarrow>
          if now - rl_timestamp rateLimit > 1000
          then (False, rl(sid \<mapsto> rateLimit\<lparr>rl_count := 1, rl_timestamp := now\<rparr>))
          else if rl_count rateLimit \<ge> limit then (True, rl)
          else (False, rl(sid \<mapsto> rateLimit\<lparr>rl_count := rl_count rateLimit + 1\<rparr>)))"

text \<open>
  The rate limiting middleware of the HTTP app: \<^verbatim>\<open>next()\<close> or status 429. \<open>interval\<close> and
  \<open>maxRequests\<close> are \<^verbatim>\<open>config.rateLimitInterval\<close> and \<^verbatim>\<open>config.rateLimitMaxRequests\<close>.
\<close>

datatype http_outcome = Next | TooManyRequests

definition rate_limit_middleware ::
  "int \<Rightarrow> int \<Rightarrow> string \<Rightarrow> int \<Rightarrow> (string \<rightharpoonup> rate_entry)
     \<Rightarrow> http_outcome \<times> (string \<rightharpoonup> rate_entry)" where
  "rate_limit_middleware interval maxRequests ip now cr =
     (case cr ip of
        None \<Rightarrow> (Next, cr(ip \<mapsto> \<lparr>rl_timestamp = now, rl_count = 1\<rparr>))
      | Some client \<Rightarrow>
          if now - rl_timestamp client > interval
          then (Next, cr(ip \<mapsto> client\<lparr>rl_count := 1, rl_timestamp := now\<rparr>))
          else if rl_count client \<ge> maxRequests then (TooManyRequests, cr)
          else (Next, cr(ip \<mapsto> client\<lparr>rl_count := rl_count client + 1\<rparr>)))"

text \<open>
  A run of one subject's events through each gate, given the clock read of every event:
  the decisions in order (\<open>True\<close> is "allowed") and the table afterwards.
\<close>

fun socket_events ::
  "sockid \<Rightarrow> int \<Rightarrow> int list \<Rightarrow> (sockid \<rightharpoonup> rate_entry) \<Rightarrow> bool list \<times> (sockid \<rightharpoonup> rate_entry)" where
  "socket_events sid limit [] rl = ([], rl)"
| "socket_events sid limit (t # ts) rl =
     (case rateLimitSocketEvent sid limit t rl of
        (limited, rl') \<Rightarrow>
          (case socket_events sid limit ts rl' of (ds, rl'') \<Rightarrow> ((\<not> limited) # ds, rl'')))"

fun http_requests ::
  "int \<Rightarrow> int \<Rightarrow> string \<Rightarrow> int list \<Rightarrow> (string \<rightharpoonup> rate_entry)
     \<Rightarrow> bool list \<times> (string \<rightharpoonup> rate_entry)" where
  "http_requests interval maxRequests ip [] cr = ([], cr)"
| "http_requests interval maxRequests ip (t # ts) cr =
     (case rate_limit_middleware interval maxRequests ip t cr of
        (out, cr') \<Rightarrow>
          (case http_requests interval maxRequests ip ts cr' of
             (ds, cr'') \<Rightarrow> ((out = Next) # ds, cr'')))"

text \<open>
  The gate in front of every socket event handler: the handler body runs on the state with
  the updated rate table unless the event is dropped.
\<close>

definition gated ::
  "sockid \<Rightarrow> int \<Rightarrow> int \<Rightarrow> (server \<Rightarrow> server \<times> emission list) \<Rightarrow> server
     \<Rightarrow> server \<times> emission list" where
  "gated sid limit now body s =
     (case rateLimitSocketEvent sid limit now (socketRateLimits s) of
        (limited, rl') \<Rightarrow>
          if limited then (s\<lparr>socketRateLimits := rl'\<rparr>, [])
          else body (s\<lparr>socketRateLimits := rl'\<rparr>))"

subsection \<open>Data windows: the \<^verbatim>\<open>request-video-data\<close> handler\<close>

text \<open>
  \<^verbatim>\<open>Array.prototype.slice(start, end)\<close> on integer arguments: a negative index counts from
  the end of the array, and both ends are brought into \<open>0 .. length\<close>.
\<close>

definition js_rel_index :: "nat \<Rightarrow> int \<Rightarrow> nat" where
  "js_rel_index len i = (if i < 0 then nat (max (int len + i) 0) else nat (min i (int len)))"

definition js_slice :: "'a list \<Rightarrow> int \<Rightarrow> int \<Rightarrow> 'a list" where
  "js_slice xs start stop =
     (let k = js_rel_index (length xs) start; final = js_rel_index (length xs) stop
      in take (final - k) (drop k xs))"

text \<open>
  The request object: a field is \<open>None\<close> when the client left it out. \<^verbatim>\<open>x || d\<close> yields the
  default \<open>d\<close> for a missing field and for the number 0.
\<close>

record request_info =
  ri_startIndex :: "int option"
  ri_chunkSize :: "int option"

definition or_default :: "int option \<Rightarrow> int \<Rightarrow> int" where
  "or_default x d = (case x of None \<Rightarrow> d | Some v \<Rightarrow> if v = 0 then d else v)"

definition startIndex_of :: "request_info \<Rightarrow> int" where
  "startIndex_of ri = or_default (ri_startIndex ri) 0"

definition chunkSize_of :: "request_info \<Rightarrow> int" where
  "chunkSize_of ri = min (or_default (ri_chunkSize ri) 10) 20"

definition validStartIndex :: "packet list \<Rightarrow> int \<Rightarrow> int" where
  "validStartIndex buf startIndex = min startIndex (int (length buf) - 1)"

definition dataToSend :: "packet list \<Rightarrow> int \<Rightarrow> int \<Rightarrow> packet list" where
  "dataToSend buf startIndex chunkSize =
     js_slice buf (validStartIndex buf startIndex)
       (min (validStartIndex buf startIndex + chunkSize) (int (length buf)))"

text \<open>\<open>b64\<close> is \<^verbatim>\<open>Buffer.toString('base64')\<close>.\<close>

definition encode_chunk :: "(bytes \<Rightarrow> string) \<Rightarrow> packet \<Rightarrow> chunk" where
  "encode_chunk b64 p =
     \<lparr>chunk_id = pkt_id p, chunk_data = b64 (pkt_data p),
      chunk_timestamp = pkt_timestamp p, chunk_size = pkt_size p\<rparr>"

text \<open>The reply of the handler body (after the gate); \<open>t\<close> is its clock read.\<close>

definition video_data_reply :: "(bytes \<Rightarrow> string) \<Rightarrow> request_info \<Rightarrow> int \<Rightarrow> server \<Rightarrow> video_data" where
  "video_data_reply b64 ri t s =
     (let startIndex = startIndex_of ri; chunkSize = chunkSize_of ri; buf = videoBuffer s
      in if length buf = 0
         then \<lparr>vd_chunks = [], vd_nextIndex = 0, vd_hasMore = False, vd_timestamp = t,
               vd_dataRate = None\<rparr>
         else
           (let v = validStartIndex buf startIndex; d = dataToSend buf startIndex chunkSize
            in \<lparr>vd_chunks = map (encode_chunk b64) d,
                vd_nextIndex = v + int (length d),
                vd_hasMore = (v + int (length d) < int (length buf)),
                vd_timestamp = t,
                vd_dataRate = Some (currentDataRate s)\<rparr>))"

definition request_video_data ::
  "(bytes \<Rightarrow> string) \<Rightarrow> sockid \<Rightarrow> request_info \<Rightarrow> int \<Rightarrow> server \<Rightarrow> server \<times> emission list" where
  "request_video_data b64 sock ri t s = (s, [(To sock, VideoData (video_data_reply b64 ri t s))])"

definition on_request_video_data ::
  "(bytes \<Rightarrow> string) \<Rightarrow> sockid \<Rightarrow> request_info \<Rightarrow> int \<Rightarrow> int \<Rightarrow> server
     \<Rightarrow> server \<times> emission list" where
  "on_request_video_data b64 sock ri now t = gated sock 5 now (request_video_data b64 sock ri t)"

text \<open>
  The window as the specification words it: a slice of the buffer that starts at
  \<open>clamp(startIndex, 0, length - 1)\<close> and has at most \<open>min(maxCount, 20)\<close> elements.
\<close>

definition clamp :: "int \<Rightarrow> int \<Rightarrow> int \<Rightarrow> int" where
  "clamp x lo hi = max lo (min x hi)"

definition spec_window :: "packet list \<Rightarrow> int \<Rightarrow> int \<Rightarrow> packet list \<Rightarrow> bool" where
  "spec_window buf startIndex maxCount w =
     (w = take (length w) (drop (nat (clamp startIndex 0 (int (length buf) - 1))) buf)
      \<and> int (length w) \<le> min maxCount 20)"

subsection \<open>Session registry: the register and unregister handlers\<close>

text \<open>
  Each handler is the gate followed by its body. The body is defined on its own, under the
  event's name; the handler as the socket receives it is \<open>on_\<close> followed by that name.
  \<open>now\<close> is the clock read of the gate, \<open>t\<close> the clock read of the messages the body emits
  (a loop that emits several messages reads the clock once per message; the handler runs to
  completion, and the model gives them one reading).
\<close>

definition register_broadcaster ::
  "sockid \<Rightarrow> streamid \<Rightarrow> int \<Rightarrow> server \<Rightarrow> server \<times> emission list" where
  "register_broadcaster sock streamId t s =
     (s\<lparr>broadcasters := (broadcasters s)(streamId \<mapsto> sock),
        viewers := (if viewers s streamId = None then (viewers s)(streamId \<mapsto> [])
                    else viewers s),
        socketRoles := (socketRoles s)(sock \<mapsto> \<lparr>re_role = Broadcaster, re_streamId = streamId\<rparr>)\<rparr>,
      [(AllExcept sock, StreamAvailable streamId t)])"

definition on_register_broadcaster ::
  "sockid \<Rightarrow> streamid \<Rightarrow> int \<Rightarrow> int \<Rightarrow> server \<Rightarrow> server \<times> emission list" where
  "on_register_broadcaster sock streamId now t = gated sock 5 now (register_broadcaster sock streamId t)"

text \<open>
  The block both \<^verbatim>\<open>unregister-broadcaster\<close> and \<^verbatim>\<open>disconnect\<close> run for a broadcaster: it acts
  only when the socket is the stored broadcaster of the stream; then it deletes the
  registration, tells every live viewer that the stream ended, and deletes the viewer set.
\<close>

definition stream_ended_notices ::
  "streamid \<Rightarrow> int \<Rightarrow> string option \<Rightarrow> sockid set \<Rightarrow> sockid list \<Rightarrow> emission list" where
  "stream_ended_notices streamId t reason live streamViewers =
     map (\<lambda>viewerId. (To viewerId, StreamEnded streamId t reason))
       (filter (\<lambda>viewerId. viewerId \<in> live) streamViewers)"

definition remove_broadcaster ::
  "sockid \<Rightarrow> streamid \<Rightarrow> int \<Rightarrow> string option \<Rightarrow> server \<Rightarrow> server \<times> emission list" where
  "remove_broadcaster sock streamId t reason s =
     (if broadcasters s streamId = Some sock
      then (let s1 = s\<lparr>broadcasters := (broadcasters s)(streamId := None)\<rparr>
            in case viewers s1 streamId of
                 None \<Rightarrow> (s1, [])
               | Some streamViewers \<Rightarrow>
                   (s1\<lparr>viewers := (viewers s1)(streamId := None)\<rparr>,
                    stream_ended_notices streamId t reason (sockets s1) streamViewers))
      else (s, []))"

definition clear_role :: "sockid \<Rightarrow> server \<times> emission list \<Rightarrow> server \<times> emission list" where
  "clear_role sock r = ((fst r)\<lparr>socketRoles := (socketRoles (fst r))(sock := None)\<rparr>, snd r)"

definition unregister_broadcaster ::
  "sockid \<Rightarrow> streamid \<Rightarrow> int \<Rightarrow> server \<Rightarrow> server \<times> emission list" where
  "unregister_broadcaster sock streamId t s = clear_role sock (remove_broadcaster sock streamId t None s)"

definition on_unregister_broadcaster ::
  "sockid \<Rightarrow> streamid \<Rightarrow> int \<Rightarrow> int \<Rightarrow> server \<Rightarrow> server \<times> emission list" where
  "on_unregister_broadcaster sock streamId now t =
     gated sock 5 now (unregister_broadcaster sock streamId t)"

text \<open>\<^verbatim>\<open>Set.prototype.add\<close> and \<^verbatim>\<open>Set.prototype.delete\<close> on the insertion-ordered member list.\<close>

definition set_add :: "'a \<Rightarrow> 'a list \<Rightarrow> 'a list" where
  "set_add x xs = (if x \<in> set xs then xs else xs @ [x])"

definition set_delete :: "'a \<Rightarrow> 'a list \<Rightarrow> 'a list" where
  "set_delete x xs = removeAll x xs"

definition notify_broadcaster :: "streamid \<Rightarrow> event \<Rightarrow> server \<Rightarrow> emission list" where
  "notify_broadcaster streamId ev s =
     (case broadcasters s streamId of
        None \<Rightarrow> []
      | Some broadcasterId \<Rightarrow> if broadcasterId \<in> sockets s then [(To broadcasterId, ev)] else [])"

definition register_viewer ::
  "sockid \<Rightarrow> streamid \<Rightarrow> int \<Rightarrow> server \<Rightarrow> server \<times> emission list" where
  "register_viewer sock streamId t s =
     (if broadcasters s streamId = None
      then (s, [(To sock, StreamUnavailable streamId t)])
      else (let streamViewers = (case viewers s streamId of None \<Rightarrow> [] | Some vs \<Rightarrow> vs);
                s1 = s\<lparr>viewers := (viewers s)(streamId \<mapsto> set_add sock streamViewers),
                       socketRoles := (socketRoles s)(sock \<mapsto> \<lparr>re_role = Viewer, re_streamId = streamId\<rparr>)\<rparr>
            in (s1, notify_broadcaster streamId (BroadcasterViewerConnected sock t) s1)))"

definition on_register_viewer ::
  "sockid \<Rightarrow> streamid \<Rightarrow> int \<Rightarrow> int \<Rightarrow> server \<Rightarrow> server \<times> emission list" where
  "on_register_viewer sock streamId now t = gated sock 5 now (register_viewer sock streamId t)"

text \<open>
  The block both \<^verbatim>\<open>unregister-viewer\<close> and \<^verbatim>\<open>disconnect\<close> run for a viewer: when the stream has
  a viewer set, delete the socket from it and tell the broadcaster, if there is a live one.
\<close>

definition remove_viewer ::
  "sockid \<Rightarrow> streamid \<Rightarrow> int \<Rightarrow> string option \<Rightarrow> server \<Rightarrow> server \<times> emission list" where
  "remove_viewer sock streamId t reason s =
     (case viewers s streamId of
        None \<Rightarrow> (s, [])
      | Some streamViewers \<Rightarrow>
          (let s1 = s\<lparr>viewers := (viewers s)(streamId \<mapsto> set_delete sock streamViewers)\<rparr>
           in (s1, notify_broadcaster streamId (BroadcasterViewerDisconnected sock t reason) s1)))"

definition unregister_viewer ::
  "sockid \<Rightarrow> streamid \<Rightarrow> int \<Rightarrow> server \<Rightarrow> server \<times> emission list" where
  "unregister_viewer sock streamId t s = clear_role sock (remove_viewer sock streamId t None s)"

definition on_unregister_viewer ::
  "sockid \<Rightarrow> streamid \<Rightarrow> int \<Rightarrow> int \<Rightarrow> server \<Rightarrow> server \<times> emission list" where
  "on_unregister_viewer sock streamId now t = gated sock 5 now (unregister_viewer sock streamId t)"

text \<open>The \<^verbatim>\<open>disconnect\<close> handler; it has no gate.\<close>

definition on_disconnect :: "sockid \<Rightarrow> int \<Rightarrow> server \<Rightarrow> server \<times> emission list" where
  "on_disconnect sock t s =
     (let s0 = s\<lparr>socketRateLimits := (socketRateLimits s)(sock := None)\<rparr>
      in case socketRoles s0 sock of
           None \<Rightarrow> (s0, [])
         | Some socketRole \<Rightarrow>
             clear_role sock
               (case re_role socketRole of
                  Broadcaster \<Rightarrow>
                    remove_broadcaster sock (re_streamId socketRole) t
                      (Some ''broadcaster-disconnected'') s0
                | Viewer \<Rightarrow>
                    remove_viewer sock (re_streamId socketRole) t
                      (Some ''viewer-disconnected'') s0))"

text \<open>A run of \<^verbatim>\<open>register-broadcaster\<close> bodies: each call is (socket, stream, clock read).\<close>

definition register_broadcasters :: "(sockid \<times> streamid \<times> int) list \<Rightarrow> server \<Rightarrow> server" where
  "register_broadcasters calls s =
     foldl (\<lambda>s' (sock, streamId, t). fst (register_broadcaster sock streamId t s')) s calls"

text \<open>The socket of the most recent call for a stream, if the run has one.\<close>

definition latest_for :: "streamid \<Rightarrow> (sockid \<times> streamid \<times> int) list \<Rightarrow> sockid option" where
  "latest_for streamId calls =
     (let cs = filter (\<lambda>(sock, k, t). k = streamId) calls
      in if cs = [] then None else Some (fst (last cs)))"

subsection \<open>Signaling relay\<close>

text \<open>
  \<^verbatim>\<open>io.sockets.sockets.get(x)\<close> finds a socket only when \<open>x\<close> is a string that is the id of a
  live connection. The forwarded object is \<^verbatim>\<open>{ ...data, <sender key>: socket.id, timestamp }\<close>.
\<close>

definition live_target :: "payload \<Rightarrow> string \<Rightarrow> server \<Rightarrow> sockid option" where
  "live_target msg key s =
     (case msg key of
        Some (JStr target) \<Rightarrow> if target \<in> sockets s then Some target else None
      | _ \<Rightarrow> None)"

definition broadcaster_signal :: "sockid \<Rightarrow> payload \<Rightarrow> int \<Rightarrow> server \<Rightarrow> server \<times> emission list" where
  "broadcaster_signal sock msg t s =
     (s, case live_target msg ''viewerId'' s of
           None \<Rightarrow> []
         | Some viewerId \<Rightarrow>
             [(To viewerId,
               ViewerSignal (msg(''broadcasterId'' \<mapsto> JStr sock, ''timestamp'' \<mapsto> JNum t)))])"

definition on_broadcaster_signal ::
  "sockid \<Rightarrow> payload \<Rightarrow> int \<Rightarrow> int \<Rightarrow> server \<Rightarrow> server \<times> emission list" where
  "on_broadcaster_signal sock msg now t = gated sock 30 now (broadcaster_signal sock msg t)"

definition viewer_signal :: "sockid \<Rightarrow> payload \<Rightarrow> int \<Rightarrow> server \<Rightarrow> server \<times> emission list" where
  "viewer_signal sock msg t s =
     (s, case live_target msg ''broadcasterId'' s of
           None \<Rightarrow> []
         | Some broadcasterId \<Rightarrow>
             [(To broadcasterId,
               BroadcasterSignal (msg(''viewerId'' \<mapsto> JStr sock, ''timestamp'' \<mapsto> JNum t)))])"

definition on_viewer_signal ::
  "sockid \<Rightarrow> payload \<Rightarrow> int \<Rightarrow> int \<Rightarrow> server \<Rightarrow> server \<times> emission list" where
  "on_viewer_signal sock msg now t = gated sock 30 now (viewer_signal sock msg t)"

definition webrtc_signal :: "sockid \<Rightarrow> payload \<Rightarrow> int \<Rightarrow> server \<Rightarrow> server \<times> emission list" where
  "webrtc_signal sock msg t s =
     (s, [(AllExcept sock, WebrtcSignal (msg(''senderId'' \<mapsto> JStr sock, ''timestamp'' \<mapsto> JNum t)))])"

definition on_webrtc_signal ::
  "sockid \<Rightarrow> payload \<Rightarrow> int \<Rightarrow> int \<Rightarrow> server \<Rightarrow> server \<times> emission list" where
  "on_webrtc_signal sock msg now t = gated sock 30 now (webrtc_signal sock msg t)"

subsection \<open>Example data\<close>

definition example_datagram :: "nat \<Rightarrow> datagram" where
  "example_datagram n =
     \<lparr>dg_msg = replicate n 0, dg_digest = ''d41d8cd98f00b204e9800998ecf8427e'',
      dg_rinfo = ''10.0.0.7:5004'', dg_t1 = 10, dg_now = 10, dg_t3 = 10\<rparr>"

definition pkt_a :: packet where
  "pkt_a = \<lparr>pkt_id = ''aaaaaaaa'', pkt_data = [1], pkt_timestamp = 1, pkt_size = 1\<rparr>"

definition pkt_b :: packet where
  "pkt_b = \<lparr>pkt_id = ''bbbbbbbb'', pkt_data = [2, 2], pkt_timestamp = 2, pkt_size = 2\<rparr>"

definition pkt_c :: packet where
  "pkt_c = \<lparr>pkt_id = ''cccccccc'', pkt_data = [3, 3, 3], pkt_timestamp = 3, pkt_size = 3\<rparr>"

text \<open>A server that holds three packets.\<close>

definition example_buffered :: server where
  "example_buffered = (initial_server 0 {''c1''})\<lparr>videoBuffer := [pkt_a, pkt_b, pkt_c]\<rparr>"

text \<open>Connection c1 registered stream s1; then c2 registered the same stream.\<close>

definition example_superseded :: server where
  "example_superseded =
     fst (register_broadcaster ''c2'' ''s1'' 2
       (fst (register_broadcaster ''c1'' ''s1'' 1 (initial_server 0 {''c1'', ''c2'', ''c3''}))))"

text \<open>Connection c1 registered stream s1; then c2 registered as a viewer of it.\<close>

definition example_watched :: server where
  "example_watched =
     fst (register_viewer ''c2'' ''s1'' 2
       (fst (register_broadcaster ''c1'' ''s1'' 1 (initial_server 0 {''c1'', ''c2'', ''c3''}))))"

section \<open>Properties\<close>

subsection \<open>Packet buffer\<close>

lemma foldl_add_sum: "foldl (\<lambda>total p. total + f p) a xs = a + (\<Sum>p\<leftarrow>xs. (f p :: int))"
  by (induction xs arbitrary: a) simp_all

lemma buffered_bytes_sum: "buffered_bytes buf = (\<Sum>p\<leftarrow>buf. int (length (pkt_data p)))"
  by (simp add: buffered_bytes_def foldl_add_sum)

lemma buffered_bytes_nonneg: "0 \<le> buffered_bytes buf"
  unfolding buffered_bytes_sum by (induction buf) simp_all

lemma evict_bound: "evict mx buf = [] \<or> buffered_bytes (evict mx buf) \<le> mx"
  by (induction buf) auto

lemma evict_subset: "set (evict mx buf) \<subseteq> set buf"
  by (induction buf) auto

lemma evict_oversized:
  "mx < int (length (pkt_data p)) \<Longrightarrow> evict mx (buf @ [p]) = []"
proof (induction buf)
  case Nil
  then show ?case by (simp add: buffered_bytes_sum)
next
  case (Cons q buf)
  have "0 \<le> buffered_bytes buf" by (rule buffered_bytes_nonneg)
  with Cons show ?case by (simp add: buffered_bytes_sum)
qed

lemma sizes_ok_total: "sizes_ok buf \<Longrightarrow> total_size buf = buffered_bytes buf"
  by (induction buf) (simp_all add: sizes_ok_def total_size_def buffered_bytes_sum)

lemma sizes_ok_evict: "sizes_ok buf \<Longrightarrow> sizes_ok (evict mx buf)"
  using evict_subset [of mx buf] by (auto simp: sizes_ok_def list_all_iff)

lemma videoBuffer_udp:
  "videoBuffer (fst (on_udp_message mx msg digest rinfo t1 now t3 s)) =
     evict mx (videoBuffer s @
       [\<lparr>pkt_id = take 8 digest, pkt_data = msg, pkt_timestamp = t1, pkt_size = length msg\<rparr>])"
  by (simp add: on_udp_message_def Let_def)

lemma sizes_ok_udp_step: "sizes_ok (videoBuffer s) \<Longrightarrow> sizes_ok (videoBuffer (udp_step mx s d))"
  unfolding udp_step_def videoBuffer_udp
  by (rule sizes_ok_evict) (simp add: sizes_ok_def)

lemma sizes_ok_udp_messages:
  "sizes_ok (videoBuffer s) \<Longrightarrow> sizes_ok (videoBuffer (udp_messages mx ds s))"
  unfolding udp_messages_def
  by (induction ds arbitrary: s) (simp_all add: sizes_ok_udp_step)

text \<open>
  Claim C1, as the code has it. After every push (every non-empty run of the datagram
  handler, from a buffer whose packets record their payload length as their size, as the
  empty buffer of process start does), the buffer is empty or the sizes of the held packets
  sum to at most the ceiling; for a ceiling that is not negative the sum is at most the
  ceiling. A packet larger than the ceiling is not kept: the eviction loop stops only at an
  empty buffer, so the push leaves no packet at all. The handler has no failing branch.
\<close>

theorem udp_buffer_bound:
  assumes "sizes_ok (videoBuffer s)" and "ds \<noteq> []"
  shows "(videoBuffer (udp_messages mx ds s) = []
           \<or> total_size (videoBuffer (udp_messages mx ds s)) \<le> mx)
       \<and> (0 \<le> mx \<longrightarrow> total_size (videoBuffer (udp_messages mx ds s)) \<le> mx)
       \<and> (mx < int (length (dg_msg (last ds))) \<longrightarrow> videoBuffer (udp_messages mx ds s) = [])"
proof -
  obtain ds' d where ds: "ds = ds' @ [d]"
    using assms(2) by (cases ds rule: rev_cases) auto
  define s' where "s' = udp_messages mx ds' s"
  define p where "p = \<lparr>pkt_id = take 8 (dg_digest d), pkt_data = dg_msg d,
     pkt_timestamp = dg_t1 d, pkt_size = length (dg_msg d)\<rparr>"
  have buf: "videoBuffer (udp_messages mx ds s) = evict mx (videoBuffer s' @ [p])"
    by (simp add: ds udp_messages_def s'_def p_def udp_step_def videoBuffer_udp)
  have ok: "sizes_ok (videoBuffer (udp_messages mx ds s))"
    using assms(1) by (rule sizes_ok_udp_messages)
  have tot: "total_size (evict mx (videoBuffer s' @ [p]))
      = buffered_bytes (evict mx (videoBuffer s' @ [p]))"
    using sizes_ok_total [OF ok] by (simp add: buf)
  have a: "evict mx (videoBuffer s' @ [p]) = [] \<or> buffered_bytes (evict mx (videoBuffer s' @ [p])) \<le> mx"
    by (rule evict_bound)
  have b: "0 \<le> mx \<longrightarrow> buffered_bytes (evict mx (videoBuffer s' @ [p])) \<le> mx"
    using a by (auto simp: buffered_bytes_sum)
  have c: "mx < int (length (dg_msg (last ds))) \<longrightarrow> evict mx (videoBuffer s' @ [p]) = []"
    using evict_oversized [of mx p "videoBuffer s'"] by (simp add: ds p_def)
  show ?thesis using a b c by (simp add: buf tot)
qed

text \<open>
  Claim C1 on a run: with ceiling 5, a 2-byte datagram followed by a 10-byte datagram
  leaves the buffer empty, and the bound holds.
\<close>

theorem udp_buffer_bound_witness:
  "sizes_ok (videoBuffer (initial_server 0 {}))
   \<and> [example_datagram 2, example_datagram 10] \<noteq> []
   \<and> (0::int) \<le> 5
   \<and> 5 < int (length (dg_msg (last [example_datagram 2, example_datagram 10])))
   \<and> videoBuffer (udp_messages 5 [example_datagram 2, example_datagram 10] (initial_server 0 {})) = []
   \<and> total_size (videoBuffer (udp_messages 5 [example_datagram 2, example_datagram 10] (initial_server 0 {}))) \<le> 5"
  using udp_buffer_bound [of "initial_server 0 {}" "[example_datagram 2, example_datagram 10]" 5]
  by (simp add: initial_server_def sizes_ok_def example_datagram_def total_size_def)

text \<open>
  Claim C1 as the specification words it says that a single packet larger than the ceiling
  is kept as the only packet of the buffer. The code does not keep it: with ceiling 5, the
  push of a 10-byte datagram into the empty buffer leaves the buffer empty.
\<close>

theorem oversized_packet_not_kept:
  "5 < int (length (dg_msg (example_datagram 10)))
   \<and> videoBuffer (udp_messages 5 [example_datagram 10] (initial_server 0 {})) = []
   \<and> length (videoBuffer (udp_messages 5 [example_datagram 10] (initial_server 0 {}))) \<noteq> 1"
  by (simp add: udp_messages_def udp_step_def on_udp_message_def example_datagram_def
      initial_server_def buffered_bytes_def)

subsection \<open>Data windows\<close>

lemma js_rel_index_in: "0 \<le> i \<Longrightarrow> js_rel_index len i = min (nat i) len"
  by (auto simp: js_rel_index_def)

lemma take_length_take: "take (length (take n xs)) xs = take n xs"
  by (cases "n \<le> length xs") (simp_all add: min_def)

lemma js_slice_window:
  "0 \<le> v \<Longrightarrow> js_slice xs v e = take (length (js_slice xs v e)) (drop (nat v) xs)"
  unfolding js_slice_def Let_def
  by (cases "nat v \<le> length xs") (simp_all add: js_rel_index_in min_def take_length_take)

lemma validStartIndex_range:
  "buf \<noteq> [] \<Longrightarrow> 0 \<le> i \<Longrightarrow> 0 \<le> validStartIndex buf i \<and> validStartIndex buf i < int (length buf)"
  by (cases buf) (auto simp: validStartIndex_def)

lemma validStartIndex_clamp:
  "buf \<noteq> [] \<Longrightarrow> 0 \<le> i \<Longrightarrow> validStartIndex buf i = clamp i 0 (int (length buf) - 1)"
  by (cases buf) (auto simp: validStartIndex_def clamp_def)

lemma dataToSend_window:
  assumes "buf \<noteq> []" "0 \<le> i"
  shows "dataToSend buf i c = take (length (dataToSend buf i c)) (drop (nat (validStartIndex buf i)) buf)"
  unfolding dataToSend_def
  using validStartIndex_range [OF assms] by (intro js_slice_window) simp

lemma dataToSend_length:
  assumes "buf \<noteq> []" "0 \<le> i"
  shows "validStartIndex buf i + int (length (dataToSend buf i c)) \<le> int (length buf)"
proof -
  define v where "v = validStartIndex buf i"
  have v: "0 \<le> v" "v < int (length buf)"
    using validStartIndex_range [OF assms] by (simp_all add: v_def)
  have "length (dataToSend buf i c) \<le> length (drop (nat v) buf)"
    unfolding v_def by (subst dataToSend_window [OF assms]) simp
  then have "length (dataToSend buf i c) \<le> length buf - nat v" by simp
  moreover have "nat v \<le> length buf" using v by linarith
  ultimately have "nat v + length (dataToSend buf i c) \<le> length buf" by linarith
  then have "int (nat v) + int (length (dataToSend buf i c)) \<le> int (length buf)" by linarith
  then show ?thesis using v by (simp add: v_def)
qed

lemma dataToSend_exact:
  assumes "buf \<noteq> []" "0 \<le> i" "0 \<le> c"
  shows "dataToSend buf i c = take (nat c) (drop (nat (validStartIndex buf i)) buf)"
proof -
  define v where "v = validStartIndex buf i"
  have v: "0 \<le> v" "v < int (length buf)"
    using validStartIndex_range [OF assms(1,2)] by (simp_all add: v_def)
  have "js_slice buf v (min (v + c) (int (length buf))) = take (nat c) (drop (nat v) buf)"
  proof (cases "v + c \<le> int (length buf)")
    case True
    then have "nat (v + c) = nat v + nat c" "nat v + nat c \<le> length buf"
      using v assms(3) by linarith+
    then show ?thesis using v assms(3) True unfolding js_slice_def Let_def
      by (simp add: js_rel_index_in min_def)
  next
    case False
    then have "length buf - nat v \<le> nat c" "nat v \<le> length buf" using v assms(3) by linarith+
    then show ?thesis using v assms(3) False unfolding js_slice_def Let_def
      by (simp add: js_rel_index_in min_def)
  qed
  then show ?thesis by (simp add: dataToSend_def v_def)
qed

lemma take_drop_nth: "k + n \<le> length xs \<Longrightarrow> take n (drop k xs) = map (\<lambda>i. xs ! i) [k..<k + n]"
  by (auto simp: list_eq_iff_nth_eq)


text \<open>
  Claim C3, as the code has it. On an empty buffer the reply has no chunks, \<open>nextIndex = 0\<close>
  and \<open>hasMore = false\<close>. On a non-empty buffer, for a start index that is not negative and a
  count of at least 1 (a missing start index counts as 0, a missing count or the count 0
  as 10), the window is the contiguous slice of the buffer, in buffer order, that starts at
  \<open>clamp(startIndex, 0, length - 1)\<close> and has at most \<open>min(count, 20)\<close> elements, exactly
  that many where the buffer has them; a start index past the end is clamped, not
  rejected; the chunks of the reply are the encoded packets of that window.
\<close>

theorem request_window_clamped:
  "(videoBuffer s = [] \<longrightarrow>
      video_data_reply b64 ri t s =
        \<lparr>vd_chunks = [], vd_nextIndex = 0, vd_hasMore = False, vd_timestamp = t,
         vd_dataRate = None\<rparr>)
   \<and> (videoBuffer s \<noteq> [] \<and> 0 \<le> startIndex_of ri \<and> 1 \<le> or_default (ri_chunkSize ri) 10 \<longrightarrow>
      spec_window (videoBuffer s) (startIndex_of ri) (or_default (ri_chunkSize ri) 10)
        (dataToSend (videoBuffer s) (startIndex_of ri) (chunkSize_of ri))
      \<and> dataToSend (videoBuffer s) (startIndex_of ri) (chunkSize_of ri)
          = take (nat (min (or_default (ri_chunkSize ri) 10) 20))
              (drop (nat (clamp (startIndex_of ri) 0 (int (length (videoBuffer s)) - 1)))
                 (videoBuffer s))
      \<and> vd_chunks (video_data_reply b64 ri t s)
          = map (encode_chunk b64) (dataToSend (videoBuffer s) (startIndex_of ri) (chunkSize_of ri)))"
proof (intro conjI impI)
  assume "videoBuffer s = []"
  then show "video_data_reply b64 ri t s =
      \<lparr>vd_chunks = [], vd_nextIndex = 0, vd_hasMore = False, vd_timestamp = t, vd_dataRate = None\<rparr>"
    by (simp add: video_data_reply_def)
next
  assume a: "videoBuffer s \<noteq> [] \<and> 0 \<le> startIndex_of ri \<and> 1 \<le> or_default (ri_chunkSize ri) 10"
  define buf where "buf = videoBuffer s"
  define i where "i = startIndex_of ri"
  define c where "c = or_default (ri_chunkSize ri) 10"
  have ne: "buf \<noteq> []" and i0: "0 \<le> i" and c1: "1 \<le> c"
    using a by (simp_all add: buf_def i_def c_def)
  have cs: "chunkSize_of ri = min c 20" by (simp add: chunkSize_of_def c_def)
  have c0: "0 \<le> min c 20" using c1 by simp
  have ex: "dataToSend buf i (min c 20)
      = take (nat (min c 20)) (drop (nat (clamp i 0 (int (length buf) - 1))) buf)"
    using dataToSend_exact [OF ne i0 c0] validStartIndex_clamp [OF ne i0] by simp
  have win: "dataToSend buf i (min c 20)
      = take (length (dataToSend buf i (min c 20))) (drop (nat (clamp i 0 (int (length buf) - 1))) buf)"
    using dataToSend_window [OF ne i0, of "min c 20"] validStartIndex_clamp [OF ne i0] by simp
  have "length (dataToSend buf i (min c 20)) \<le> nat (min c 20)"
    by (subst ex) simp
  then have len: "int (length (dataToSend buf i (min c 20))) \<le> min c 20"
    using c0 by linarith
  show "spec_window (videoBuffer s) (startIndex_of ri) (or_default (ri_chunkSize ri) 10)
        (dataToSend (videoBuffer s) (startIndex_of ri) (chunkSize_of ri))"
    unfolding spec_window_def cs buf_def [symmetric] i_def [symmetric] c_def [symmetric]
    using win len by simp
  show "dataToSend (videoBuffer s) (startIndex_of ri) (chunkSize_of ri)
          = take (nat (min (or_default (ri_chunkSize ri) 10) 20))
              (drop (nat (clamp (startIndex_of ri) 0 (int (length (videoBuffer s)) - 1)))
                 (videoBuffer s))"
    unfolding cs buf_def [symmetric] i_def [symmetric] c_def [symmetric] by (rule ex)
  show "vd_chunks (video_data_reply b64 ri t s)
          = map (encode_chunk b64) (dataToSend (videoBuffer s) (startIndex_of ri) (chunkSize_of ri))"
    using ne by (simp add: video_data_reply_def Let_def buf_def)
qed

text \<open>
  Claim C3 on two requests for start index 7 and count 2: on the empty buffer the reply is
  empty without more data; on a buffer of three packets the start index is clamped to 2
  and the window is the last packet.
\<close>

theorem request_window_clamped_witness:
  "videoBuffer (initial_server 0 {}) = []
   \<and> vd_chunks (video_data_reply (\<lambda>bs. replicate (length bs) CHR ''A'')
        \<lparr>ri_startIndex = Some 7, ri_chunkSize = Some 2\<rparr> 9 (initial_server 0 {})) = []
   \<and> \<not> vd_hasMore (video_data_reply (\<lambda>bs. replicate (length bs) CHR ''A'')
        \<lparr>ri_startIndex = Some 7, ri_chunkSize = Some 2\<rparr> 9 (initial_server 0 {}))
   \<and> videoBuffer example_buffered \<noteq> []
   \<and> 0 \<le> startIndex_of \<lparr>ri_startIndex = Some 7, ri_chunkSize = Some 2\<rparr>
   \<and> 1 \<le> or_default (ri_chunkSize \<lparr>ri_startIndex = Some 7, ri_chunkSize = Some 2\<rparr>) 10
   \<and> spec_window (videoBuffer example_buffered) 7 2 [pkt_c]
   \<and> vd_chunks (video_data_reply (\<lambda>bs. replicate (length bs) CHR ''A'')
        \<lparr>ri_startIndex = Some 7, ri_chunkSize = Some 2\<rparr> 9 example_buffered)
       = [encode_chunk (\<lambda>bs. replicate (length bs) CHR ''A'') pkt_c]"
proof -
  let ?b = "\<lambda>bs :: bytes. replicate (length bs) CHR ''A''"
  let ?ri = "\<lparr>ri_startIndex = Some 7, ri_chunkSize = Some 2\<rparr>"
  have e: "videoBuffer (initial_server 0 {}) = []" by (simp add: initial_server_def)
  have "video_data_reply ?b ?ri 9 (initial_server 0 {}) =
      \<lparr>vd_chunks = [], vd_nextIndex = 0, vd_hasMore = False, vd_timestamp = 9, vd_dataRate = None\<rparr>"
    using request_window_clamped [of "initial_server 0 {}" ?b ?ri 9] e by blast
  then have e1: "vd_chunks (video_data_reply ?b ?ri 9 (initial_server 0 {})) = []"
    and e2: "\<not> vd_hasMore (video_data_reply ?b ?ri 9 (initial_server 0 {}))"
    by simp_all
  have buf: "videoBuffer example_buffered = [pkt_a, pkt_b, pkt_c]"
    by (simp add: example_buffered_def)
  have si: "startIndex_of ?ri = 7" by (simp add: startIndex_of_def or_default_def)
  have od: "or_default (ri_chunkSize ?ri) 10 = 2" by (simp add: or_default_def)
  have h: "videoBuffer example_buffered \<noteq> []" by (simp add: buf)
  have i: "0 \<le> startIndex_of ?ri" by (simp add: si)
  have c: "1 \<le> or_default (ri_chunkSize ?ri) 10" by (simp add: or_default_def)
  have w: "spec_window (videoBuffer example_buffered) (startIndex_of ?ri) (or_default (ri_chunkSize ?ri) 10)
        (dataToSend (videoBuffer example_buffered) (startIndex_of ?ri) (chunkSize_of ?ri))
      \<and> dataToSend (videoBuffer example_buffered) (startIndex_of ?ri) (chunkSize_of ?ri)
          = take (nat (min (or_default (ri_chunkSize ?ri) 10) 20))
              (drop (nat (clamp (startIndex_of ?ri) 0 (int (length (videoBuffer example_buffered)) - 1)))
                 (videoBuffer example_buffered))
      \<and> vd_chunks (video_data_reply ?b ?ri 9 example_buffered)
          = map (encode_chunk ?b) (dataToSend (videoBuffer example_buffered) (startIndex_of ?ri) (chunkSize_of ?ri))"
    using request_window_clamped [of example_buffered ?b ?ri 9] h i c by blast
  have "take (nat (min (or_default (ri_chunkSize ?ri) 10) 20))
              (drop (nat (clamp (startIndex_of ?ri) 0 (int (length (videoBuffer example_buffered)) - 1)))
                 (videoBuffer example_buffered)) = [pkt_c]"
    unfolding si od buf by (simp add: clamp_def)
  then have d: "dataToSend (videoBuffer example_buffered) (startIndex_of ?ri) (chunkSize_of ?ri) = [pkt_c]"
    using w by simp
  have "spec_window (videoBuffer example_buffered) (startIndex_of ?ri) (or_default (ri_chunkSize ?ri) 10)
        (dataToSend (videoBuffer example_buffered) (startIndex_of ?ri) (chunkSize_of ?ri))"
    using w by (rule conjunct1)
  then have "spec_window (videoBuffer example_buffered) (startIndex_of ?ri) (or_default (ri_chunkSize ?ri) 10) [pkt_c]"
    by (simp only: d)
  then have a: "spec_window (videoBuffer example_buffered) 7 2 [pkt_c]"
    by (simp only: si od)
  have "vd_chunks (video_data_reply ?b ?ri 9 example_buffered)
      = map (encode_chunk ?b) (dataToSend (videoBuffer example_buffered) (startIndex_of ?ri) (chunkSize_of ?ri))"
    using w by (elim conjE)
  then have v: "vd_chunks (video_data_reply ?b ?ri 9 example_buffered) = [encode_chunk ?b pkt_c]"
    by (simp only: d list.map)
  from e e1 e2 h i c a v show ?thesis by (intro conjI)
qed

text \<open>
  Claim C3 as the specification words it covers negative start indices and any count. On a
  buffer of three packets, start index -1 is not clamped to 0: \<^verbatim>\<open>slice\<close> counts it from the end
  and the window is the last packet, not a slice that starts at index 0. A count of 0 is
  replaced by the default 10, so the window has three packets, more than \<open>min(0, 20)\<close>.
\<close>

theorem negative_start_and_zero_count:
  "dataToSend (videoBuffer example_buffered)
      (startIndex_of \<lparr>ri_startIndex = Some (- 1), ri_chunkSize = Some 10\<rparr>)
      (chunkSize_of \<lparr>ri_startIndex = Some (- 1), ri_chunkSize = Some 10\<rparr>) = [pkt_c]
   \<and> \<not> spec_window (videoBuffer example_buffered) (- 1) 10 [pkt_c]
   \<and> dataToSend (videoBuffer example_buffered)
      (startIndex_of \<lparr>ri_startIndex = Some 0, ri_chunkSize = Some 0\<rparr>)
      (chunkSize_of \<lparr>ri_startIndex = Some 0, ri_chunkSize = Some 0\<rparr>) = [pkt_a, pkt_b, pkt_c]
   \<and> \<not> spec_window (videoBuffer example_buffered) 0 0 [pkt_a, pkt_b, pkt_c]"
  by (simp add: example_buffered_def startIndex_of_def chunkSize_of_def or_default_def
      dataToSend_def validStartIndex_def js_slice_def js_rel_index_def spec_window_def clamp_def
      pkt_a_def pkt_b_def pkt_c_def)

text \<open>
  Claim C9. On a non-empty buffer and for a start index that is not negative, the reply has
  \<open>nextIndex = clampedStartIndex + number of chunks\<close>, \<open>nextIndex\<close> is within the buffer, the
  chunks are the encoded buffer entries at the indices from the clamped start index up to
  \<open>nextIndex - 1\<close>, and \<open>hasMore\<close> holds exactly when \<open>nextIndex\<close> is less than the buffer
  length.
\<close>

theorem video_data_reply_window:
  assumes "videoBuffer s \<noteq> []" and "0 \<le> startIndex_of ri"
  shows "vd_nextIndex (video_data_reply b64 ri t s)
           = clamp (startIndex_of ri) 0 (int (length (videoBuffer s)) - 1)
             + int (length (vd_chunks (video_data_reply b64 ri t s)))
       \<and> vd_nextIndex (video_data_reply b64 ri t s) \<le> int (length (videoBuffer s))
       \<and> vd_chunks (video_data_reply b64 ri t s)
           = map (\<lambda>i. encode_chunk b64 (videoBuffer s ! i))
               [nat (clamp (startIndex_of ri) 0 (int (length (videoBuffer s)) - 1))
                ..< nat (vd_nextIndex (video_data_reply b64 ri t s))]
       \<and> (vd_hasMore (video_data_reply b64 ri t s)
            \<longleftrightarrow> vd_nextIndex (video_data_reply b64 ri t s) < int (length (videoBuffer s)))"
proof -
  define buf where "buf = videoBuffer s"
  define v where "v = validStartIndex buf (startIndex_of ri)"
  define d where "d = dataToSend buf (startIndex_of ri) (chunkSize_of ri)"
  have ne: "buf \<noteq> []" using assms(1) by (simp add: buf_def)
  have r: "video_data_reply b64 ri t s =
      \<lparr>vd_chunks = map (encode_chunk b64) d, vd_nextIndex = v + int (length d),
       vd_hasMore = (v + int (length d) < int (length buf)), vd_timestamp = t,
       vd_dataRate = Some (currentDataRate s)\<rparr>"
    using ne by (simp add: video_data_reply_def Let_def buf_def v_def d_def)
  have vc: "v = clamp (startIndex_of ri) 0 (int (length buf) - 1)"
    unfolding v_def by (rule validStartIndex_clamp [OF ne assms(2)])
  have v0: "0 \<le> v" "v < int (length buf)"
    using validStartIndex_range [OF ne assms(2)] by (simp_all add: v_def)
  have le: "v + int (length d) \<le> int (length buf)"
    unfolding v_def d_def by (rule dataToSend_length [OF ne assms(2)])
  have "d = take (length d) (drop (nat v) buf)"
    unfolding v_def d_def by (rule dataToSend_window [OF ne assms(2)])
  also have "\<dots> = map (\<lambda>i. buf ! i) [nat v..<nat v + length d]"
    using le v0 by (intro take_drop_nth) linarith
  finally have dn: "d = map (\<lambda>i. buf ! i) [nat v..<nat v + length d]" .
  have nn: "nat (v + int (length d)) = nat v + length d" using v0 by linarith
  have "map (encode_chunk b64) d = map (\<lambda>i. encode_chunk b64 (buf ! i)) [nat v..<nat v + length d]"
    by (subst dn) (simp add: comp_def)
  then show ?thesis using le by (simp add: r vc [symmetric] nn buf_def [symmetric])
qed


text \<open>
  Claim C9 on a request: start index 1 and count 1 on a buffer of three packets yields the
  second packet, \<open>nextIndex = 2\<close> and \<open>hasMore\<close>.
\<close>

theorem video_data_reply_window_witness:
  "videoBuffer example_buffered \<noteq> []
   \<and> 0 \<le> startIndex_of \<lparr>ri_startIndex = Some 1, ri_chunkSize = Some 1\<rparr>
   \<and> vd_nextIndex (video_data_reply (\<lambda>bs. replicate (length bs) CHR ''A'')
        \<lparr>ri_startIndex = Some 1, ri_chunkSize = Some 1\<rparr> 9 example_buffered) = 2
   \<and> vd_chunks (video_data_reply (\<lambda>bs. replicate (length bs) CHR ''A'')
        \<lparr>ri_startIndex = Some 1, ri_chunkSize = Some 1\<rparr> 9 example_buffered)
       = [encode_chunk (\<lambda>bs. replicate (length bs) CHR ''A'') pkt_b]
   \<and> vd_hasMore (video_data_reply (\<lambda>bs. replicate (length bs) CHR ''A'')
        \<lparr>ri_startIndex = Some 1, ri_chunkSize = Some 1\<rparr> 9 example_buffered)"
proof -
  let ?b = "\<lambda>bs :: bytes. replicate (length bs) CHR ''A''"
  let ?ri = "\<lparr>ri_startIndex = Some 1, ri_chunkSize = Some 1\<rparr>"
  let ?r = "video_data_reply ?b ?ri 9 example_buffered"
  have buf: "videoBuffer example_buffered = [pkt_a, pkt_b, pkt_c]"
    by (simp add: example_buffered_def)
  have si: "startIndex_of ?ri = 1" by (simp add: startIndex_of_def or_default_def)
  have cs: "chunkSize_of ?ri = 1" by (simp add: chunkSize_of_def or_default_def)
  have v: "validStartIndex (videoBuffer example_buffered) 1 = 1"
    by (simp add: buf validStartIndex_def)
  have d: "dataToSend (videoBuffer example_buffered) 1 1 = [pkt_b]"
    by (simp add: buf dataToSend_def validStartIndex_def js_slice_def js_rel_index_def)
  have h: "videoBuffer example_buffered \<noteq> []" by (simp add: buf)
  have k: "0 \<le> startIndex_of ?ri" by (simp add: si)
  note w = video_data_reply_window [OF h k, of ?b 9]
  have n: "vd_nextIndex ?r = 2" and c: "vd_chunks ?r = [encode_chunk ?b pkt_b]"
    unfolding video_data_reply_def Let_def si cs d v by (simp_all add: buf)
  have "vd_hasMore ?r \<longleftrightarrow> vd_nextIndex ?r < int (length (videoBuffer example_buffered))"
    using w by (elim conjE)
  then have m: "vd_hasMore ?r" by (simp only: n buf) simp
  from h k n c m show ?thesis by (intro conjI)
qed

subsection \<open>Admission control\<close>

lemma socket_events_append:
  "socket_events sid limit (ts @ us) rl =
     (fst (socket_events sid limit ts rl) @ fst (socket_events sid limit us (snd (socket_events sid limit ts rl))),
      snd (socket_events sid limit us (snd (socket_events sid limit ts rl))))"
  by (induction ts arbitrary: rl) (simp_all split: prod.splits)

lemma socket_events_within:
  assumes "rl sid = Some \<lparr>rl_timestamp = w, rl_count = c\<rparr>"
    and "\<forall>t\<in>set ts. t - w \<le> 1000"
    and "c + int (length ts) \<le> limit"
  shows "socket_events sid limit ts rl =
     (replicate (length ts) True, rl(sid \<mapsto> \<lparr>rl_timestamp = w, rl_count = c + int (length ts)\<rparr>))"
  using assms
proof (induction ts arbitrary: rl c)
  case Nil
  then show ?case by (simp add: fun_upd_idem)
next
  case (Cons t ts)
  define rl1 where "rl1 = rl(sid \<mapsto> \<lparr>rl_timestamp = w, rl_count = c + 1\<rparr>)"
  have step: "rateLimitSocketEvent sid limit t rl = (False, rl1)"
    using Cons.prems by (simp add: rateLimitSocketEvent_def rl1_def)
  have "socket_events sid limit ts rl1 =
     (replicate (length ts) True,
      rl1(sid \<mapsto> \<lparr>rl_timestamp = w, rl_count = (c + 1) + int (length ts)\<rparr>))"
    using Cons.prems by (intro Cons.IH) (simp_all add: rl1_def)
  moreover have "rl1(sid \<mapsto> \<lparr>rl_timestamp = w, rl_count = (c + 1) + int (length ts)\<rparr>)
      = rl(sid \<mapsto> \<lparr>rl_timestamp = w, rl_count = c + int (length (t # ts))\<rparr>)"
    by (simp add: rl1_def add.assoc)
  ultimately have ih: "socket_events sid limit ts rl1 =
     (replicate (length ts) True,
      rl(sid \<mapsto> \<lparr>rl_timestamp = w, rl_count = c + int (length (t # ts))\<rparr>))"
    by simp
  show ?case by (simp add: step ih) (simp add: fun_upd_def)
qed

lemma fixed_window_socket:
  assumes "rl sid = None" and "1 \<le> L" and "length ts = L - 1"
    and "\<forall>t\<in>set ts. t - t0 \<le> 1000" and "u - t0 \<le> 1000" and "1000 < v - t0"
  shows "socket_events sid (int L) (t0 # ts @ [u, v]) rl =
     (replicate L True @ [False, True], rl(sid \<mapsto> \<lparr>rl_timestamp = v, rl_count = 1\<rparr>))"
proof -
  define rl1 where "rl1 = rl(sid \<mapsto> \<lparr>rl_timestamp = t0, rl_count = 1\<rparr>)"
  define rl2 where "rl2 = rl(sid \<mapsto> \<lparr>rl_timestamp = t0, rl_count = int L\<rparr>)"
  have first: "rateLimitSocketEvent sid (int L) t0 rl = (False, rl1)"
    using assms(1) by (simp add: rateLimitSocketEvent_def rl1_def)
  have "socket_events sid (int L) ts rl1 =
      (replicate (length ts) True, rl1(sid \<mapsto> \<lparr>rl_timestamp = t0, rl_count = 1 + int (length ts)\<rparr>))"
    using assms(2,3,4) by (intro socket_events_within) (simp_all add: rl1_def)
  then have mid: "socket_events sid (int L) ts rl1 = (replicate (L - 1) True, rl2)"
    using assms(2,3) by (simp add: rl1_def rl2_def of_nat_diff)
  have deny: "rateLimitSocketEvent sid (int L) u rl2 = (True, rl2)"
    using assms(5) by (simp add: rateLimitSocketEvent_def rl2_def)
  have again: "rateLimitSocketEvent sid (int L) v rl2 =
      (False, rl(sid \<mapsto> \<lparr>rl_timestamp = v, rl_count = 1\<rparr>))"
    using assms(6) by (simp add: rateLimitSocketEvent_def rl2_def)
  have tail: "socket_events sid (int L) [u, v] rl2 =
      ([False, True], rl(sid \<mapsto> \<lparr>rl_timestamp = v, rl_count = 1\<rparr>))"
    by (simp add: deny again)
  have rep: "True # replicate (L - 1) True = replicate L True"
    using assms(2) by (cases L) simp_all
  have rest: "socket_events sid (int L) (ts @ [u, v]) rl1 =
      (replicate (L - 1) True @ [False, True], rl(sid \<mapsto> \<lparr>rl_timestamp = v, rl_count = 1\<rparr>))"
    by (simp add: socket_events_append mid deny again)
  show ?thesis
    using rep by (simp add: first rest)
qed


lemma http_requests_append:
  "http_requests T limit ip (ts @ us) rl =
     (fst (http_requests T limit ip ts rl) @ fst (http_requests T limit ip us (snd (http_requests T limit ip ts rl))),
      snd (http_requests T limit ip us (snd (http_requests T limit ip ts rl))))"
  by (induction ts arbitrary: rl) (simp_all split: prod.splits)

lemma http_requests_within:
  assumes "rl ip = Some \<lparr>rl_timestamp = w, rl_count = c\<rparr>"
    and "\<forall>t\<in>set ts. t - w \<le> T"
    and "c + int (length ts) \<le> limit"
  shows "http_requests T limit ip ts rl =
     (replicate (length ts) True, rl(ip \<mapsto> \<lparr>rl_timestamp = w, rl_count = c + int (length ts)\<rparr>))"
  using assms
proof (induction ts arbitrary: rl c)
  case Nil
  then show ?case by (simp add: fun_upd_idem)
next
  case (Cons t ts)
  define rl1 where "rl1 = rl(ip \<mapsto> \<lparr>rl_timestamp = w, rl_count = c + 1\<rparr>)"
  have step: "rate_limit_middleware T limit ip t rl = (Next, rl1)"
    using Cons.prems by (simp add: rate_limit_middleware_def rl1_def)
  have "http_requests T limit ip ts rl1 =
     (replicate (length ts) True,
      rl1(ip \<mapsto> \<lparr>rl_timestamp = w, rl_count = (c + 1) + int (length ts)\<rparr>))"
    using Cons.prems by (intro Cons.IH) (simp_all add: rl1_def)
  moreover have "rl1(ip \<mapsto> \<lparr>rl_timestamp = w, rl_count = (c + 1) + int (length ts)\<rparr>)
      = rl(ip \<mapsto> \<lparr>rl_timestamp = w, rl_count = c + int (length (t # ts))\<rparr>)"
    by (simp add: rl1_def add.assoc)
  ultimately have ih: "http_requests T limit ip ts rl1 =
     (replicate (length ts) True,
      rl(ip \<mapsto> \<lparr>rl_timestamp = w, rl_count = c + int (length (t # ts))\<rparr>))"
    by simp
  show ?case by (simp add: step ih) (simp add: fun_upd_def)
qed

lemma fixed_window_http:
  assumes "rl ip = None" and "1 \<le> L" and "length ts = L - 1"
    and "\<forall>t\<in>set ts. t - t0 \<le> T" and "u - t0 \<le> T" and "T < v - t0"
  shows "http_requests T (int L) ip (t0 # ts @ [u, v]) rl =
     (replicate L True @ [False, True], rl(ip \<mapsto> \<lparr>rl_timestamp = v, rl_count = 1\<rparr>))"
proof -
  define rl1 where "rl1 = rl(ip \<mapsto> \<lparr>rl_timestamp = t0, rl_count = 1\<rparr>)"
  define rl2 where "rl2 = rl(ip \<mapsto> \<lparr>rl_timestamp = t0, rl_count = int L\<rparr>)"
  have first: "rate_limit_middleware T (int L) ip t0 rl = (Next, rl1)"
    using assms(1) by (simp add: rate_limit_middleware_def rl1_def)
  have "http_requests T (int L) ip ts rl1 =
      (replicate (length ts) True, rl1(ip \<mapsto> \<lparr>rl_timestamp = t0, rl_count = 1 + int (length ts)\<rparr>))"
    using assms(2,3,4) by (intro http_requests_within) (simp_all add: rl1_def)
  then have mid: "http_requests T (int L) ip ts rl1 = (replicate (L - 1) True, rl2)"
    using assms(2,3) by (simp add: rl1_def rl2_def of_nat_diff)
  have deny: "rate_limit_middleware T (int L) ip u rl2 = (TooManyRequests, rl2)"
    using assms(5) by (simp add: rate_limit_middleware_def rl2_def)
  have again: "rate_limit_middleware T (int L) ip v rl2 =
      (Next, rl(ip \<mapsto> \<lparr>rl_timestamp = v, rl_count = 1\<rparr>))"
    using assms(6) by (simp add: rate_limit_middleware_def rl2_def)
  have tail: "http_requests T (int L) ip [u, v] rl2 =
      ([False, True], rl(ip \<mapsto> \<lparr>rl_timestamp = v, rl_count = 1\<rparr>))"
    by (simp add: deny again)
  have rep: "True # replicate (L - 1) True = replicate L True"
    using assms(2) by (cases L) simp_all
  have rest: "http_requests T (int L) ip (ts @ [u, v]) rl1 =
      (replicate (L - 1) True @ [False, True], rl(ip \<mapsto> \<lparr>rl_timestamp = v, rl_count = 1\<rparr>))"
    by (simp add: http_requests_append mid deny again)
  show ?thesis
    using rep by (simp add: first rest)
qed


text \<open>
  Claim C4, as the code has it, for a limit \<open>L\<close> of at least 1. Starting from no window
  state for the subject, \<open>L\<close> events within the interval of the first one are all allowed,
  the next event within that interval is denied, and an event more than the interval after
  the window start is allowed again and leaves the window at count 1, started at that
  event. The first conjunct is the HTTP middleware with its configured interval \<open>T\<close>, the
  second the socket event gate, whose interval is 1000.
\<close>

theorem rate_window_reset:
  assumes "1 \<le> L" and "length ts = L - 1"
    and "\<forall>t\<in>set ts. t - t0 \<le> T" and "u - t0 \<le> T" and "T < v - t0"
  shows "(cr ip = None \<longrightarrow>
            http_requests T (int L) ip (t0 # ts @ [u, v]) cr =
              (replicate L True @ [False, True], cr(ip \<mapsto> \<lparr>rl_timestamp = v, rl_count = 1\<rparr>)))
       \<and> (T = 1000 \<and> rl sid = None \<longrightarrow>
            socket_events sid (int L) (t0 # ts @ [u, v]) rl =
              (replicate L True @ [False, True], rl(sid \<mapsto> \<lparr>rl_timestamp = v, rl_count = 1\<rparr>)))"
proof (intro conjI impI)
  assume "cr ip = None"
  then show "http_requests T (int L) ip (t0 # ts @ [u, v]) cr =
      (replicate L True @ [False, True], cr(ip \<mapsto> \<lparr>rl_timestamp = v, rl_count = 1\<rparr>))"
    using assms by (rule fixed_window_http)
next
  assume a: "T = 1000 \<and> rl sid = None"
  then have "rl sid = None" by simp
  then show "socket_events sid (int L) (t0 # ts @ [u, v]) rl =
      (replicate L True @ [False, True], rl(sid \<mapsto> \<lparr>rl_timestamp = v, rl_count = 1\<rparr>))"
    using assms a by (intro fixed_window_socket) simp_all
qed

text \<open>
  Claim C4 on a run with limit 2: events at 0 and 10 are allowed, the event at 500 is
  denied, the event at 1500 is allowed again and starts a window of count 1, at both gates.
\<close>

theorem rate_window_reset_witness:
  "(1::nat) \<le> 2 \<and> length [10::int] = 2 - 1 \<and> set [10::int] = {10} \<and> (10::int) - 0 \<le> 1000
   \<and> (500::int) - 0 \<le> 1000 \<and> (1000::int) < 1500 - 0
   \<and> clientRequests (initial_server 0 {}) ''10.0.0.9'' = None
   \<and> socketRateLimits (initial_server 0 {}) ''c1'' = None
   \<and> fst (http_requests 1000 2 ''10.0.0.9'' [0, 10, 500, 1500] (clientRequests (initial_server 0 {})))
       = [True, True, False, True]
   \<and> fst (socket_events ''c1'' 2 [0, 10, 500, 1500] (socketRateLimits (initial_server 0 {})))
       = [True, True, False, True]
   \<and> snd (http_requests 1000 2 ''10.0.0.9'' [0, 10, 500, 1500] (clientRequests (initial_server 0 {})))
         ''10.0.0.9'' = Some \<lparr>rl_timestamp = 1500, rl_count = 1\<rparr>
   \<and> snd (socket_events ''c1'' 2 [0, 10, 500, 1500] (socketRateLimits (initial_server 0 {})))
         ''c1'' = Some \<lparr>rl_timestamp = 1500, rl_count = 1\<rparr>"
  using rate_window_reset [of 2 "[10]" 0 1000 500 1500 "clientRequests (initial_server 0 {})"
      "''10.0.0.9''" "socketRateLimits (initial_server 0 {})" "''c1''"]
  by (simp add: initial_server_def numeral_2_eq_2)

text \<open>
  Claim C4 as the specification words it covers every limit. With limit 0 the first event
  of a subject, which is the \<open>(L + 1)\<close>-th, is allowed at both gates: an event that finds no
  window state creates it and passes without a look at the limit.
\<close>

theorem limit_zero_first_event_allowed:
  "clientRequests (initial_server 0 {}) ''10.0.0.9'' = None
   \<and> fst (http_requests 1000 0 ''10.0.0.9'' [0] (clientRequests (initial_server 0 {}))) = [True]
   \<and> socketRateLimits (initial_server 0 {}) ''c1'' = None
   \<and> fst (socket_events ''c1'' 0 [0] (socketRateLimits (initial_server 0 {}))) = [True]
   \<and> fst (http_requests 1000 0 ''10.0.0.9'' [0] (clientRequests (initial_server 0 {})))
       \<noteq> replicate 0 True @ [False]"
  by (simp add: initial_server_def rate_limit_middleware_def rateLimitSocketEvent_def)

text \<open>
  The gate in front of a handler body: an admitted event runs the body on the state with the
  updated rate table; a dropped event changes nothing (the table included) and emits nothing.
\<close>

lemma gated_admitted:
  "rateLimitSocketEvent sid limit now (socketRateLimits s) = (False, rl') \<Longrightarrow>
     gated sid limit now body s = body (s\<lparr>socketRateLimits := rl'\<rparr>)"
  by (simp add: gated_def)

lemma gated_dropped:
  "rateLimitSocketEvent sid limit now (socketRateLimits s) = (True, rl') \<Longrightarrow>
     gated sid limit now body s = (s, [])"
  by (auto simp: gated_def rateLimitSocketEvent_def split: option.splits if_splits)

lemma on_register_broadcaster_admitted:
  "rateLimitSocketEvent sock 5 now (socketRateLimits s) = (False, rl') \<Longrightarrow>
     broadcasters (fst (on_register_broadcaster sock streamId now t s)) streamId = Some sock"
  by (simp add: on_register_broadcaster_def gated_admitted register_broadcaster_def)

subsection \<open>Session registry\<close>

lemma broadcasters_register:
  "broadcasters (fst (register_broadcaster sock streamId t s)) = (broadcasters s)(streamId \<mapsto> sock)"
  by (simp add: register_broadcaster_def)

lemma register_broadcasters_snoc:
  "register_broadcasters (calls @ [(sock, k, t)]) s =
     fst (register_broadcaster sock k t (register_broadcasters calls s))"
  by (simp add: register_broadcasters_def)

lemma latest_for_snoc:
  "latest_for streamId (calls @ [(sock, k, t)]) =
     (if k = streamId then Some sock else latest_for streamId calls)"
  by (simp add: latest_for_def Let_def)

lemma broadcasters_run:
  "broadcasters (register_broadcasters calls s) streamId =
     (case latest_for streamId calls of None \<Rightarrow> broadcasters s streamId | Some sock \<Rightarrow> Some sock)"
proof (induction calls rule: rev_induct)
  case Nil
  then show ?case by (simp add: register_broadcasters_def latest_for_def Let_def)
next
  case (snoc c calls)
  obtain sock k t where c: "c = (sock, k, t)" by (cases c) auto
  show ?case using snoc
    by (simp add: c register_broadcasters_snoc latest_for_snoc broadcasters_register)
qed

text \<open>
  Claim C2. After any run of \<^verbatim>\<open>register-broadcaster\<close> calls, from any connections and for any
  streams, the broadcaster stored for a stream is the socket of the most recent call for
  that stream: a later registration overwrites an earlier one, whoever made it.
\<close>

theorem register_broadcaster_last_wins:
  "latest_for streamId calls = Some sock \<Longrightarrow>
     broadcasters (register_broadcasters calls s) streamId = Some sock"
  by (simp add: broadcasters_run)


text \<open>
  Claim C2 on a run: c1 registers s1, c9 registers s2, c2 registers s1; the broadcaster
  stored for s1 is c2.
\<close>

theorem register_broadcaster_last_wins_witness:
  "latest_for ''s1'' [(''c1'', ''s1'', 1), (''c9'', ''s2'', 2), (''c2'', ''s1'', 3)] = Some ''c2''
   \<and> broadcasters (register_broadcasters [(''c1'', ''s1'', 1), (''c9'', ''s2'', 2), (''c2'', ''s1'', 3)]
        (initial_server 0 {''c1'', ''c2'', ''c9''})) ''s1'' = Some ''c2''"
proof -
  have h: "latest_for ''s1'' [(''c1'', ''s1'', 1), (''c9'', ''s2'', 2), (''c2'', ''s1'', 3)] = Some ''c2''"
    by (simp add: latest_for_def)
  show ?thesis using h register_broadcaster_last_wins [OF h] by simp
qed

text \<open>
  Claim C10. Registering a broadcaster for a stream that already has a viewer set leaves
  every viewer set as it was, and the only message is the \<^verbatim>\<open>stream-available\<close> notice to the
  other connections: no viewer is told that the stream ended.
\<close>

theorem register_broadcaster_keeps_viewers:
  assumes "viewers s streamId = Some vs"
  shows "viewers (fst (register_broadcaster sock streamId t s)) = viewers s
       \<and> snd (register_broadcaster sock streamId t s) = [(AllExcept sock, StreamAvailable streamId t)]"
  using assms by (simp add: register_broadcaster_def)


text \<open>
  Claim C10 on a state: s1 has broadcaster c1 and viewer c2; when c3 registers as the
  broadcaster of s1 the viewer sets stay as they were, and c3 is the stored broadcaster.
\<close>

theorem register_broadcaster_keeps_viewers_witness:
  "viewers example_watched ''s1'' = Some [''c2'']
   \<and> viewers (fst (register_broadcaster ''c3'' ''s1'' 3 example_watched)) = viewers example_watched
   \<and> broadcasters (fst (register_broadcaster ''c3'' ''s1'' 3 example_watched)) ''s1'' = Some ''c3''
   \<and> snd (register_broadcaster ''c3'' ''s1'' 3 example_watched) = [(AllExcept ''c3'', StreamAvailable ''s1'' 3)]"
proof -
  have h: "viewers example_watched ''s1'' = Some [''c2'']"
    by (simp add: example_watched_def register_viewer_def register_broadcaster_def set_add_def
        initial_server_def Let_def)
  show ?thesis
    using h register_broadcaster_keeps_viewers [OF h, of "''c3''" 3]
    by (simp add: register_broadcaster_def)
qed

text \<open>
  Claim C6, as the code has it. When the socket is not the stored broadcaster of the
  stream, \<^verbatim>\<open>unregister-broadcaster\<close> emits nothing and leaves the broadcaster map, the viewer
  sets and every other part of the state unchanged, except that it deletes the calling
  socket's entry of the role table.
\<close>

theorem unregister_broadcaster_not_owner:
  assumes "broadcasters s streamId \<noteq> Some sock"
  shows "unregister_broadcaster sock streamId t s = (s\<lparr>socketRoles := (socketRoles s)(sock := None)\<rparr>, [])"
  using assms by (simp add: unregister_broadcaster_def remove_broadcaster_def clear_role_def)


text \<open>
  Claim C6 on a state: c1 registered s1 and was superseded by c2; the unregister call
  of c1 changes only the role entry of c1.
\<close>

theorem unregister_broadcaster_not_owner_witness:
  "broadcasters example_superseded ''s1'' \<noteq> Some ''c1''
   \<and> unregister_broadcaster ''c1'' ''s1'' 3 example_superseded
      = (example_superseded\<lparr>socketRoles := (socketRoles example_superseded)(''c1'' := None)\<rparr>, [])"
proof -
  have h: "broadcasters example_superseded ''s1'' \<noteq> Some ''c1''"
    by (simp add: example_superseded_def register_broadcaster_def)
  show ?thesis using h unregister_broadcaster_not_owner [OF h, of 3] by simp
qed

text \<open>
  Claim C6 as the specification words it says that the role table is unchanged. In the
  state where c2 superseded c1 as the broadcaster of s1, the unregister call of c1 deletes
  the role entry of c1.
\<close>

theorem stale_unregister_clears_role:
  "broadcasters example_superseded ''s1'' \<noteq> Some ''c1''
   \<and> socketRoles example_superseded ''c1'' = Some \<lparr>re_role = Broadcaster, re_streamId = ''s1''\<rparr>
   \<and> socketRoles (fst (unregister_broadcaster ''c1'' ''s1'' 3 example_superseded)) ''c1'' = None
   \<and> fst (unregister_broadcaster ''c1'' ''s1'' 3 example_superseded) \<noteq> example_superseded"
proof -
  have b: "broadcasters example_superseded ''s1'' \<noteq> Some ''c1''"
    and r: "socketRoles example_superseded ''c1'' = Some \<lparr>re_role = Broadcaster, re_streamId = ''s1''\<rparr>"
    and n: "socketRoles (fst (unregister_broadcaster ''c1'' ''s1'' 3 example_superseded)) ''c1'' = None"
    by (simp_all add: example_superseded_def register_broadcaster_def unregister_broadcaster_def
        remove_broadcaster_def clear_role_def initial_server_def)
  have "fst (unregister_broadcaster ''c1'' ''s1'' 3 example_superseded) \<noteq> example_superseded"
    using r n by auto
  with b r n show ?thesis by (intro conjI)
qed

lemma remove_viewer_absent:
  assumes "\<forall>vs. viewers s streamId = Some vs \<longrightarrow> sock \<notin> set vs"
  shows "remove_viewer sock streamId t reason s =
     (s, if viewers s streamId = None then []
         else notify_broadcaster streamId (BroadcasterViewerDisconnected sock t reason) s)"
  using assms
  by (auto simp: remove_viewer_def set_delete_def Let_def map_upd_triv split: option.splits)

text \<open>
  Claim C7, as the code has it. When the socket is in no viewer set of the stream,
  \<^verbatim>\<open>unregister-viewer\<close> has no failing branch and leaves the viewer sets, the broadcaster map
  and every other part of the state unchanged, except that it deletes the calling socket's
  entry of the role table. Where the stream has a viewer set and a live broadcaster, the
  broadcaster is still sent the \<^verbatim>\<open>broadcaster-viewer-disconnected\<close> notice.
\<close>

theorem unregister_viewer_never_registered:
  assumes "\<forall>vs. viewers s streamId = Some vs \<longrightarrow> sock \<notin> set vs"
  shows "unregister_viewer sock streamId t s =
     (s\<lparr>socketRoles := (socketRoles s)(sock := None)\<rparr>,
      if viewers s streamId = None then []
      else notify_broadcaster streamId (BroadcasterViewerDisconnected sock t None) s)"
  using remove_viewer_absent [OF assms] by (simp add: unregister_viewer_def clear_role_def)

text \<open>
  Claim C7 on a state: s1 has broadcaster c1 and viewer c2; the unregister call of c3,
  which is no viewer of s1, changes only the role entry of c3, and c1 is notified.
\<close>

theorem unregister_viewer_never_registered_witness:
  "viewers example_watched ''s1'' = Some [''c2''] \<and> ''c3'' \<notin> set [''c2'']
   \<and> unregister_viewer ''c3'' ''s1'' 3 example_watched
      = (example_watched\<lparr>socketRoles := (socketRoles example_watched)(''c3'' := None)\<rparr>,
         [(To ''c1'', BroadcasterViewerDisconnected ''c3'' 3 None)])"
proof -
  have h: "\<forall>vs. viewers example_watched ''s1'' = Some vs \<longrightarrow> ''c3'' \<notin> set vs"
    by (simp add: example_watched_def register_viewer_def register_broadcaster_def set_add_def
        initial_server_def Let_def)
  have n: "viewers example_watched ''s1'' \<noteq> None"
    by (simp add: example_watched_def register_viewer_def register_broadcaster_def
        initial_server_def Let_def)
  have b: "notify_broadcaster ''s1'' (BroadcasterViewerDisconnected ''c3'' 3 None) example_watched
      = [(To ''c1'', BroadcasterViewerDisconnected ''c3'' 3 None)]"
    by (simp add: notify_broadcaster_def example_watched_def register_viewer_def
        register_broadcaster_def initial_server_def Let_def)
  have v: "viewers example_watched ''s1'' = Some [''c2'']"
    by (simp add: example_watched_def register_viewer_def register_broadcaster_def set_add_def
        initial_server_def Let_def)
  show ?thesis using v n unregister_viewer_never_registered [OF h, of 3] by (simp add: b)
qed

text \<open>
  Claim C7 as the specification words it says that the role table is unchanged. In the
  state where s1 has broadcaster c1 and viewer c2, the call \<^verbatim>\<open>unregister-viewer\<close> of c1, which
  never was a viewer of s1, deletes the role entry of c1.
\<close>

theorem unregister_viewer_clears_role:
  "viewers example_watched ''s1'' = Some [''c2'']
   \<and> socketRoles example_watched ''c1'' = Some \<lparr>re_role = Broadcaster, re_streamId = ''s1''\<rparr>
   \<and> socketRoles (fst (unregister_viewer ''c1'' ''s1'' 3 example_watched)) ''c1'' = None
   \<and> fst (unregister_viewer ''c1'' ''s1'' 3 example_watched) \<noteq> example_watched"
proof -
  have v: "viewers example_watched ''s1'' = Some [''c2'']"
    and r: "socketRoles example_watched ''c1'' = Some \<lparr>re_role = Broadcaster, re_streamId = ''s1''\<rparr>"
    and n: "socketRoles (fst (unregister_viewer ''c1'' ''s1'' 3 example_watched)) ''c1'' = None"
    by (simp_all add: example_watched_def register_viewer_def register_broadcaster_def set_add_def
        unregister_viewer_def remove_viewer_def clear_role_def initial_server_def Let_def)
  have "fst (unregister_viewer ''c1'' ''s1'' 3 example_watched) \<noteq> example_watched"
    using r n by auto
  with v r n show ?thesis by (intro conjI)
qed

lemma on_disconnect_clears:
  "socketRoles (fst (on_disconnect sock t s)) sock = None"
  "socketRateLimits (fst (on_disconnect sock t s)) sock = None"
  by (simp_all add: on_disconnect_def clear_role_def remove_broadcaster_def remove_viewer_def Let_def
      split: option.splits role.splits)

lemma on_disconnect_unknown:
  "socketRoles s sock = None \<Longrightarrow> socketRateLimits s sock = None \<Longrightarrow> on_disconnect sock t s = (s, [])"
  by (simp add: on_disconnect_def Let_def fun_upd_idem)

text \<open>
  Claim C5. A second \<^verbatim>\<open>disconnect\<close> for the same socket changes nothing of the state the
  first one left (broadcaster map, viewer sets, role table and rate tables alike) and emits
  no message.
\<close>

theorem on_disconnect_idempotent:
  "on_disconnect sock t' (fst (on_disconnect sock t s)) = (fst (on_disconnect sock t s), [])"
  by (rule on_disconnect_unknown) (rule on_disconnect_clears)+


text \<open>
  Claim C5 on a state: s1 has broadcaster c1 and viewer c2; the first disconnect of c1
  tells c2 that the stream ended, the second changes nothing and emits nothing.
\<close>

theorem on_disconnect_idempotent_witness:
  "snd (on_disconnect ''c1'' 5 example_watched)
     = [(To ''c2'', StreamEnded ''s1'' 5 (Some ''broadcaster-disconnected''))]
   \<and> on_disconnect ''c1'' 9 (fst (on_disconnect ''c1'' 5 example_watched))
     = (fst (on_disconnect ''c1'' 5 example_watched), [])"
  using on_disconnect_idempotent [of "''c1''" 9 5 example_watched]
  by (simp add: on_disconnect_def example_watched_def register_viewer_def register_broadcaster_def
      initial_server_def set_add_def notify_broadcaster_def clear_role_def remove_broadcaster_def
      stream_ended_notices_def Let_def)

subsection \<open>Signaling relay\<close>

lemma live_target_None:
  "(\<forall>target. msg key = Some (JStr target) \<longrightarrow> target \<notin> sockets s) \<Longrightarrow> live_target msg key s = None"
  by (auto simp: live_target_def split: option.splits jval.splits)

lemma live_target_Some:
  "msg key = Some (JStr target) \<Longrightarrow> target \<in> sockets s \<Longrightarrow> live_target msg key s = Some target"
  by (simp add: live_target_def)

text \<open>
  The whole handler, gate included, for a signal without a live target: nothing is emitted,
  and the state differs from the one before at most in the rate table of the gate.
\<close>

lemma on_broadcaster_signal_absent:
  assumes "\<forall>target. msg ''viewerId'' = Some (JStr target) \<longrightarrow> target \<notin> sockets s"
  shows "snd (on_broadcaster_signal sock msg now t s) = []
       \<and> (fst (on_broadcaster_signal sock msg now t s))\<lparr>socketRateLimits := socketRateLimits s\<rparr> = s"
proof -
  have "live_target msg ''viewerId'' (s\<lparr>socketRateLimits := rl'\<rparr>) = None" for rl'
    using assms by (intro live_target_None) simp
  then show ?thesis
    by (simp add: on_broadcaster_signal_def gated_def broadcaster_signal_def split: prod.splits)
qed

lemma on_viewer_signal_absent:
  assumes "\<forall>target. msg ''broadcasterId'' = Some (JStr target) \<longrightarrow> target \<notin> sockets s"
  shows "snd (on_viewer_signal sock msg now t s) = []
       \<and> (fst (on_viewer_signal sock msg now t s))\<lparr>socketRateLimits := socketRateLimits s\<rparr> = s"
proof -
  have "live_target msg ''broadcasterId'' (s\<lparr>socketRateLimits := rl'\<rparr>) = None" for rl'
    using assms by (intro live_target_None) simp
  then show ?thesis
    by (simp add: on_viewer_signal_def gated_def viewer_signal_def split: prod.splits)
qed

text \<open>
  Claim C8. A directed signal whose target field does not name a live connection is
  dropped: the relay emits nothing (no delivery, no notice to the sender) and changes no
  state; it has no failing branch. When the target is live, the one message goes to the
  target and carries the payload with the sender's socket id and the timestamp added. Both
  directions (\<^verbatim>\<open>broadcaster-signal\<close> and \<^verbatim>\<open>viewer-signal\<close>) behave so.
\<close>

theorem directed_relay:
  "((\<forall>target. msg ''viewerId'' = Some (JStr target) \<longrightarrow> target \<notin> sockets s)
      \<longrightarrow> broadcaster_signal sock msg t s = (s, []))
   \<and> ((\<forall>target. msg ''broadcasterId'' = Some (JStr target) \<longrightarrow> target \<notin> sockets s)
      \<longrightarrow> viewer_signal sock msg t s = (s, []))
   \<and> (msg ''viewerId'' = Some (JStr target) \<and> target \<in> sockets s
      \<longrightarrow> broadcaster_signal sock msg t s =
           (s, [(To target, ViewerSignal (msg(''broadcasterId'' \<mapsto> JStr sock, ''timestamp'' \<mapsto> JNum t)))]))
   \<and> (msg ''broadcasterId'' = Some (JStr target) \<and> target \<in> sockets s
      \<longrightarrow> viewer_signal sock msg t s =
           (s, [(To target, BroadcasterSignal (msg(''viewerId'' \<mapsto> JStr sock, ''timestamp'' \<mapsto> JNum t)))]))"
  by (simp add: broadcaster_signal_def viewer_signal_def live_target_None live_target_Some)



text \<open>
  Claim C8 on a state with live connections c1, c2 and c3: a signal to "ghost" is dropped
  in both directions, a signal to c3 is delivered to c3 with the sender and the timestamp
  added.
\<close>

theorem directed_relay_witness:
  "[''viewerId'' \<mapsto> JStr ''ghost'', ''broadcasterId'' \<mapsto> JStr ''ghost''] ''viewerId'' = Some (JStr ''ghost'')
   \<and> [''viewerId'' \<mapsto> JStr ''ghost'', ''broadcasterId'' \<mapsto> JStr ''ghost''] ''broadcasterId'' = Some (JStr ''ghost'')
   \<and> ''ghost'' \<notin> sockets example_watched
   \<and> broadcaster_signal ''c1'' [''viewerId'' \<mapsto> JStr ''ghost'', ''broadcasterId'' \<mapsto> JStr ''ghost''] 7 example_watched
       = (example_watched, [])
   \<and> viewer_signal ''c2'' [''viewerId'' \<mapsto> JStr ''ghost'', ''broadcasterId'' \<mapsto> JStr ''ghost''] 7 example_watched
       = (example_watched, [])
   \<and> [''viewerId'' \<mapsto> JStr ''c3'', ''broadcasterId'' \<mapsto> JStr ''c3''] ''viewerId'' = Some (JStr ''c3'')
   \<and> [''viewerId'' \<mapsto> JStr ''c3'', ''broadcasterId'' \<mapsto> JStr ''c3''] ''broadcasterId'' = Some (JStr ''c3'')
   \<and> ''c3'' \<in> sockets example_watched
   \<and> snd (broadcaster_signal ''c1'' [''viewerId'' \<mapsto> JStr ''c3'', ''broadcasterId'' \<mapsto> JStr ''c3''] 7 example_watched)
       = [(To ''c3'', ViewerSignal [''viewerId'' \<mapsto> JStr ''c3'', ''broadcasterId'' \<mapsto> JStr ''c1'', ''timestamp'' \<mapsto> JNum 7])]
   \<and> snd (viewer_signal ''c2'' [''viewerId'' \<mapsto> JStr ''c3'', ''broadcasterId'' \<mapsto> JStr ''c3''] 7 example_watched)
       = [(To ''c3'', BroadcasterSignal [''viewerId'' \<mapsto> JStr ''c2'', ''broadcasterId'' \<mapsto> JStr ''c3'', ''timestamp'' \<mapsto> JNum 7])]"
proof -
  have live: "sockets example_watched = {''c1'', ''c2'', ''c3''}"
    by (simp add: example_watched_def register_viewer_def register_broadcaster_def
        initial_server_def Let_def)
  show ?thesis
    using directed_relay [of "[''viewerId'' \<mapsto> JStr ''ghost'', ''broadcasterId'' \<mapsto> JStr ''ghost'']"
        example_watched "''c1''" 7 "''ghost''"]
      directed_relay [of "[''viewerId'' \<mapsto> JStr ''ghost'', ''broadcasterId'' \<mapsto> JStr ''ghost'']"
        example_watched "''c2''" 7 "''ghost''"]
      directed_relay [of "[''viewerId'' \<mapsto> JStr ''c3'', ''broadcasterId'' \<mapsto> JStr ''c3'']"
        example_watched "''c1''" 7 "''c3''"]
      directed_relay [of "[''viewerId'' \<mapsto> JStr ''c3'', ''broadcasterId'' \<mapsto> JStr ''c3'']"
        example_watched "''c2''" 7 "''c3''"]
    by (simp add: live fun_upd_twist)
qed

end
